theory Spec2Isabelle
  imports Main "HOL-Library.Word" "HOL-Library.Sublist"
begin

section \<open>The zapdriver core: data model\<close>

text \<open>
  The development follows \<^verbatim>\<open>core.go\<close>. Go values are modelled as the code has them:
  \<^item> \<^verbatim>\<open>int64\<close> slots are \<open>64 word\<close>; the narrowing conversions \<^verbatim>\<open>int32(x)\<close>,
    \<^verbatim>\<open>uint8(x)\<close>, ... keep the low bits (\<open>ucast\<close>);
  \<^item> floating-point and complex values are carried as their bit patterns only (no
    arithmetic is done on them by this package);
  \<^item> a value boxed in \<^verbatim>\<open>interface{}\<close> is a \<open>goval\<close>: the dynamic value together with
    its dynamic type, which is what a type assertion inspects;
  \<^item> a run-time panic is the left summand of the result type.
  The mutexes of the label stores are not modelled: every operation is a sequential
  run of the function body.
\<close>

subsection \<open>Time values\<close>

text \<open>
  A \<^verbatim>\<open>time.Time\<close> is an instant (nanoseconds since the Unix epoch) together with the
  location it is presented in. \<^verbatim>\<open>time.Unix(sec, nsec)\<close> is documented to return the
  \<^emph>\<open>local\<close> time for the instant; \<^verbatim>\<open>t.In(loc)\<close> keeps the instant and replaces the
  location, and panics on a nil location.
\<close>

datatype location = UTC | Local | Zone string

record gotime =
  unixNano :: int
  loc :: location

datatype panic =
    TypeAssertion   \<comment> \<open>\<^verbatim>\<open>interface conversion\<close>: a failed single-value type assertion\<close>
  | MissingLocation \<comment> \<open>\<^verbatim>\<open>time: missing Location in call to Time.In\<close>\<close>
  | NilDereference  \<comment> \<open>a method that reads its receiver, called through a nil pointer\<close>

definition time_Unix :: "64 word \<Rightarrow> 64 word \<Rightarrow> gotime" where
  "time_Unix sec nsec = \<lparr>unixNano = sint sec * 1000000000 + sint nsec, loc = Local\<rparr>"

definition time_In :: "gotime \<Rightarrow> location option \<Rightarrow> panic + gotime" where
  "time_In t l = (case l of None \<Rightarrow> Inl MissingLocation | Some z \<Rightarrow> Inr (t\<lparr>loc := z\<rparr>))"

subsection \<open>Dynamic values and typed fields\<close>

text \<open>
  The objects that the package itself boxes into a field: the label set, the source
  location, the service context and the error report; \<open>OtherObject\<close> stands for any
  other value implementing \<^verbatim>\<open>zapcore.ObjectMarshaler\<close>.
\<close>

datatype object =
    LabelsObject "string \<rightharpoonup> string"
  | SourceObject nat string int bool
  | ServiceContextObject string
  | ReportObject nat string int bool
  | OtherObject nat

datatype goval =
    NilVal
  | ArrayMarshalerVal nat
  | ObjectMarshalerVal object
  | BytesVal "8 word list"
  | BoolVal bool
  | Complex128Val "64 word" "64 word"
  | Complex64Val "32 word" "32 word"
  | DurationVal "64 word"
  | Float64Val "64 word"
  | Float32Val "32 word"
  | Int64Val "64 word"
  | Int32Val "32 word"
  | Int16Val "16 word"
  | Int8Val "8 word"
  | StringVal string
  | TimeVal gotime
  | Uint64Val "64 word"
  | Uint32Val "32 word"
  | Uint16Val "16 word"
  | Uint8Val "8 word"
  | UintptrVal "64 word"
  | LocationPtr "location option" \<comment> \<open>a \<^verbatim>\<open>*time.Location\<close>, possibly a nil pointer\<close>
  | OtherVal nat \<comment> \<open>any other dynamic value (an error, a Stringer, a reflected value)\<close>

text \<open>
  \<^verbatim>\<open>zapcore.FieldType\<close> is a \<^verbatim>\<open>uint8\<close>. The constructors are the tags named in the
  switch of \<^verbatim>\<open>ToInterface\<close>; \<open>OtherType n\<close> is any tag value \<open>n\<close> that the switch does not
  name (zap's \<^verbatim>\<open>UnknownType\<close>, or a tag added by a later zap).
\<close>

datatype FieldType =
    ArrayMarshalerType | ObjectMarshalerType | BinaryType | BoolType | ByteStringType
  | Complex128Type | Complex64Type | DurationType | Float64Type | Float32Type
  | Int64Type | Int32Type | Int16Type | Int8Type | StringType | TimeType
  | Uint64Type | Uint32Type | Uint16Type | Uint8Type | UintptrType
  | ReflectType | NamespaceType | StringerType | ErrorType | SkipType
  | OtherType nat

record Field =
  Key :: string
  Type :: FieldType
  Integer :: "64 word"
  String :: string
  Interface :: goval

subsection \<open>Package constants and the fmt package\<close>

text \<open>
  Modelled from the spec: the reserved field-name constants \<^verbatim>\<open>labelsKey\<close>,
  \<^verbatim>\<open>sourceKey\<close>, \<^verbatim>\<open>serviceContextKey\<close> and \<^verbatim>\<open>contextKey\<close> are declared in files
  of the package other than \<^verbatim>\<open>core.go\<close>; the spec fixes no literal for them ("exact
  literal values are an implementation choice"), so they are parameters. \<open>fmt_value\<close> is the
  \<^verbatim>\<open>%v\<close> rendering that the fmt package gives a boxed value (it may print addresses).
\<close>

record env =
  labelsKey :: string
  sourceKey :: string
  serviceContextKey :: string
  contextKey :: string
  fmt_value :: "goval \<Rightarrow> string"

subsection \<open>Decimal rendering\<close>

definition digit :: "nat \<Rightarrow> char" where
  "digit d = ''0123456789'' ! d"

function dec :: "nat \<Rightarrow> string" where
  "dec n = (if n < 10 then [digit n] else dec (n div 10) @ [digit (n mod 10)])"
  by pat_completeness auto
termination
  by (relation "measure id") auto

declare dec.simps [simp del]

definition dec_int :: "int \<Rightarrow> string" where
  "dec_int i = (if i < 0 then CHR ''-'' # dec (nat (- i)) else dec (nat i))"

text \<open>
  \<^verbatim>\<open>%v\<close> of a \<^verbatim>\<open>zapcore.Field\<close> struct: its fields in order, space separated, in
  braces; \<open>n\<close> is the numeric value of the field's tag.
\<close>

definition fmt_Field :: "env \<Rightarrow> nat \<Rightarrow> Field \<Rightarrow> string" where
  "fmt_Field E n f =
     ''{'' @ Key f @ '' '' @ dec n @ '' '' @ dec_int (sint (Integer f)) @ '' '' @
     String f @ '' '' @ fmt_value E (Interface f) @ ''}''"

section \<open>Value normalisation: \<^verbatim>\<open>ToInterface\<close>\<close>

text \<open>The single-value type assertions of the switch; each panics on any other dynamic type.\<close>

definition assert_ArrayMarshaler :: "goval \<Rightarrow> panic + goval" where
  "assert_ArrayMarshaler v = (case v of ArrayMarshalerVal a \<Rightarrow> Inr v | _ \<Rightarrow> Inl TypeAssertion)"

definition assert_ObjectMarshaler :: "goval \<Rightarrow> panic + goval" where
  "assert_ObjectMarshaler v = (case v of ObjectMarshalerVal a \<Rightarrow> Inr v | _ \<Rightarrow> Inl TypeAssertion)"

definition assert_bytes :: "goval \<Rightarrow> panic + goval" where
  "assert_bytes v = (case v of BytesVal b \<Rightarrow> Inr v | _ \<Rightarrow> Inl TypeAssertion)"

definition assert_complex128 :: "goval \<Rightarrow> panic + goval" where
  "assert_complex128 v = (case v of Complex128Val r i \<Rightarrow> Inr v | _ \<Rightarrow> Inl TypeAssertion)"

definition assert_complex64 :: "goval \<Rightarrow> panic + goval" where
  "assert_complex64 v = (case v of Complex64Val r i \<Rightarrow> Inr v | _ \<Rightarrow> Inl TypeAssertion)"

definition assert_Location :: "goval \<Rightarrow> panic + location option" where
  "assert_Location v = (case v of LocationPtr p \<Rightarrow> Inr p | _ \<Rightarrow> Inl TypeAssertion)"

definition ToInterface :: "env \<Rightarrow> Field \<Rightarrow> panic + goval" where
  "ToInterface E f =
     (case Type f of
        ArrayMarshalerType \<Rightarrow> assert_ArrayMarshaler (Interface f)
      | ObjectMarshalerType \<Rightarrow> assert_ObjectMarshaler (Interface f)
      | BinaryType \<Rightarrow> assert_bytes (Interface f)
      | BoolType \<Rightarrow> Inr (BoolVal (Integer f = 1))
      | ByteStringType \<Rightarrow> assert_bytes (Interface f)
      | Complex128Type \<Rightarrow> assert_complex128 (Interface f)
      | Complex64Type \<Rightarrow> assert_complex64 (Interface f)
      | DurationType \<Rightarrow> Inr (DurationVal (Integer f))
      | Float64Type \<Rightarrow> Inr (Float64Val (Integer f))
      | Float32Type \<Rightarrow> Inr (Float32Val (ucast (Integer f)))
      | Int64Type \<Rightarrow> Inr (Int64Val (Integer f))
      | Int32Type \<Rightarrow> Inr (Int32Val (ucast (Integer f)))
      | Int16Type \<Rightarrow> Inr (Int16Val (ucast (Integer f)))
      | Int8Type \<Rightarrow> Inr (Int8Val (ucast (Integer f)))
      | StringType \<Rightarrow> Inr (StringVal (String f))
      | TimeType \<Rightarrow>
          (if Interface f \<noteq> NilVal
           then (case assert_Location (Interface f) of
                   Inl p \<Rightarrow> Inl p
                 | Inr l \<Rightarrow> (case time_In (time_Unix 0 (Integer f)) l of
                              Inl p \<Rightarrow> Inl p
                            | Inr t \<Rightarrow> Inr (TimeVal t)))
           else Inr (TimeVal (time_Unix 0 (Integer f))))
      | Uint64Type \<Rightarrow> Inr (Uint64Val (Integer f))
      | Uint32Type \<Rightarrow> Inr (Uint32Val (ucast (Integer f)))
      | Uint16Type \<Rightarrow> Inr (Uint16Val (ucast (Integer f)))
      | Uint8Type \<Rightarrow> Inr (Uint8Val (ucast (Integer f)))
      | UintptrType \<Rightarrow> Inr (UintptrVal (Integer f))
      | ReflectType \<Rightarrow> Inr (Interface f)
      | NamespaceType \<Rightarrow> Inr NilVal
      | StringerType \<Rightarrow> Inr (Interface f)
      | ErrorType \<Rightarrow> Inr (Interface f)
      | SkipType \<Rightarrow> Inr NilVal
      | OtherType n \<Rightarrow> Inr (StringVal (''unknown field type: '' @ fmt_Field E n f)))"

section \<open>Label stores and field classification\<close>

subsection \<open>Strings\<close>

text \<open>
  \<^verbatim>\<open>strings.Replace(s, old, new, 1)\<close>: the first (leftmost) occurrence of \<open>old\<close> in \<open>s\<close>
  is replaced by \<open>new\<close>; without an occurrence \<open>s\<close> is returned. \<^verbatim>\<open>strings.HasPrefix\<close>
  is \<open>prefix\<close>.
\<close>

fun strings_Replace1 :: "string \<Rightarrow> string \<Rightarrow> string \<Rightarrow> string" where
  "strings_Replace1 [] old new = (if old = [] then new else [])"
| "strings_Replace1 (c # cs) old new =
     (if prefix old (c # cs) then new @ drop (length old) (c # cs)
      else c # strings_Replace1 cs old new)"

subsection \<open>The label store\<close>

text \<open>
  Modelled from the spec: the type \<^verbatim>\<open>labels\<close> (a \<^verbatim>\<open>store\<close> map from string to string
  behind a mutex) with \<^verbatim>\<open>newLabels\<close> and \<^verbatim>\<open>reset\<close> is declared outside \<^verbatim>\<open>core.go\<close>;
  the spec gives "\<^verbatim>\<open>reset()\<close> \<rightarrow> clear all entries" and a fresh store is empty.

  A core holds \<^emph>\<open>pointers\<close> to its two stores, and \<^verbatim>\<open>With\<close> hands the pointer of the
  permanent store on to the child scope, so the stores live in a heap indexed by
  references. The stores that \<^verbatim>\<open>extractLabels\<close> and \<^verbatim>\<open>allLabels\<close> allocate are
  referenced by nothing but the value returned; they are modelled by their contents.
\<close>

type_synonym store = "string \<rightharpoonup> string"

type_synonym ref = nat

record heap =
  store_of :: "ref \<Rightarrow> store"
  next_ref :: ref

definition newLabels :: "heap \<Rightarrow> ref \<times> heap" where
  "newLabels h =
     (next_ref h, \<lparr>store_of = (store_of h)(next_ref h := Map.empty), next_ref = Suc (next_ref h)\<rparr>)"

definition reset :: "ref \<Rightarrow> heap \<Rightarrow> heap" where
  "reset r h = h\<lparr>store_of := (store_of h)(r := Map.empty)\<rparr>"

text \<open>
  The loop \<^verbatim>\<open>for k, v := range src { dst[k] = v }\<close> visits every key of \<open>src\<close> once, in
  an order the language leaves open. \<open>range_copy ks\<close> is the loop for the visiting order
  \<open>ks\<close>; lemma \<open>range_copy_map_add\<close> below shows that every order yields \<open>dst ++ src\<close>,
  which is what the models of \<^verbatim>\<open>With\<close>, \<^verbatim>\<open>Write\<close> and \<^verbatim>\<open>allLabels\<close> use.
\<close>

fun range_copy :: "string list \<Rightarrow> store \<Rightarrow> store \<Rightarrow> store" where
  "range_copy [] src dst = dst"
| "range_copy (k # ks) src dst = range_copy ks src (dst(k := src k))"

definition merge_into :: "ref \<Rightarrow> store \<Rightarrow> heap \<Rightarrow> heap" where
  "merge_into r src h = h\<lparr>store_of := (store_of h)(r := store_of h r ++ src)\<rparr>"

subsection \<open>Field classification\<close>

text \<open>
  Modelled from the spec: \<^verbatim>\<open>isLabelField\<close> is declared outside \<^verbatim>\<open>core.go\<close>. By the
  spec a label is "a caller-supplied key/value string pair", carried by a field "whose key
  begins with a reserved prefix", and the prefix that \<^verbatim>\<open>extractLabels\<close> strips is the
  literal \<^verbatim>\<open>labels.\<close>: a label field is a string-typed field whose key begins with
  \<^verbatim>\<open>labels.\<close> The spec treats a field with the prefix and a value that is not a string
  apart; the properties of classification below are stated for string-typed fields with
  the prefix and for fields without the prefix, and say nothing about such a field.
\<close>

definition isLabelField :: "Field \<Rightarrow> bool" where
  "isLabelField f = (prefix ''labels.'' (Key f) \<and> Type f = StringType)"

fun extractLabels_loop :: "Field list \<Rightarrow> store \<times> Field list \<Rightarrow> store \<times> Field list" where
  "extractLabels_loop [] (lbls, out) = (lbls, out)"
| "extractLabels_loop (f # fs) (lbls, out) =
     (if \<not> isLabelField f then extractLabels_loop fs (lbls, out @ [f])
      else extractLabels_loop fs
             (lbls(strings_Replace1 (Key f) ''labels.'' '''' \<mapsto> String f), out))"

definition extractLabels :: "Field list \<Rightarrow> store \<times> Field list" where
  "extractLabels fs = extractLabels_loop fs (Map.empty, [])"

section \<open>The core\<close>

subsection \<open>Log records, configuration and collaborators\<close>

record EntryCaller =
  Defined :: bool
  PC :: nat
  File :: string
  Line :: int

text \<open>\<^verbatim>\<open>zapcore.Level\<close> is a signed integer; \<^verbatim>\<open>l.Enabled(lvl)\<close> is \<^verbatim>\<open>lvl >= l\<close>.\<close>

type_synonym Level = int

definition DebugLevel :: Level where "DebugLevel = - 1"

definition InfoLevel :: Level where "InfoLevel = 0"

definition WarnLevel :: Level where "WarnLevel = 1"

definition ErrorLevel :: Level where "ErrorLevel = 2"

definition DPanicLevel :: Level where "DPanicLevel = 3"

definition PanicLevel :: Level where "PanicLevel = 4"

definition FatalLevel :: Level where "FatalLevel = 5"

definition Enabled :: "Level \<Rightarrow> Level \<Rightarrow> bool" where
  "Enabled l lvl = (lvl \<ge> l)"

record Entry =
  Level :: Level
  Time :: gotime
  LoggerName :: string
  Message :: string
  Caller :: EntryCaller
  Stack :: string

datatype Severity =
    SeverityDefault | SeverityDebug | SeverityInfo | SeverityNotice | SeverityWarning
  | SeverityError | SeverityCritical | SeverityAlert | SeverityEmergency

text \<open>A lookup of a level that the table does not hold gives the zero severity.\<close>

definition logLevelSeverityGoogle :: "Level \<Rightarrow> Severity" where
  "logLevelSeverityGoogle l =
     (if l = DebugLevel then SeverityDebug
      else if l = InfoLevel then SeverityInfo
      else if l = WarnLevel then SeverityWarning
      else if l = ErrorLevel then SeverityError
      else if l = DPanicLevel then SeverityCritical
      else if l = PanicLevel then SeverityAlert
      else if l = FatalLevel then SeverityEmergency
      else SeverityDefault)"

record driverConfig =
  ReportAllErrors :: bool
  ServiceName :: string

text \<open>The entry handed to the remote client (\<^verbatim>\<open>logging.Entry\<close>).\<close>

record LogEntry =
  Timestamp :: gotime
  Severity :: Severity
  Payload :: "string \<rightharpoonup> goval"
  Labels :: store
  InsertID :: string
  HTTPRequest :: "unit option"
  Operation :: "unit option"
  LogName :: string
  Resource :: "unit option"
  Trace :: string
  SpanID :: string
  TraceSampled :: bool
  SourceLocationFile :: string
  SourceLocationLine :: int

text \<open>
  The two collaborators. The wrapped local sink (\<^verbatim>\<open>zapcore.Core\<close>) is its accumulated
  context and its behaviour on a write, which returns an error or nil. The remote client
  (\<^verbatim>\<open>*logging.Logger\<close>) is a pointer, nil until \<^verbatim>\<open>WithLogger\<close> sets it; its \<^verbatim>\<open>Log\<close>
  returns nothing to the caller, so whether the dispatch succeeded (the boolean) is an
  outcome that \<^verbatim>\<open>Write\<close> cannot read. \<^verbatim>\<open>Log\<close> reads its receiver, so a call through
  the nil pointer panics.
\<close>

type_synonym error = "string option"

record sink =
  ctx :: "Field list"
  behaviour :: "Field list \<Rightarrow> Entry \<Rightarrow> Field list \<Rightarrow> error"

definition Core_With :: "sink \<Rightarrow> Field list \<Rightarrow> sink" where
  "Core_With s fs = s\<lparr>ctx := ctx s @ fs\<rparr>"

definition Core_Write :: "sink \<Rightarrow> Entry \<Rightarrow> Field list \<Rightarrow> error" where
  "Core_Write s ent fs = behaviour s (ctx s) ent fs"

type_synonym Logger = "LogEntry \<Rightarrow> bool"

text \<open>
  The struct field \<^verbatim>\<open>fields\<close> is named \<open>core_fields\<close> (the name \<open>fields\<close> is taken
  by the record package).
\<close>

record core =
  Core :: sink
  core_fields :: "Field list"
  lg :: "Logger option"
  permLabels :: ref
  tempLabels :: ref
  config :: driverConfig

subsection \<open>Fields built by the package\<close>

text \<open>
  Modelled from the spec: \<^verbatim>\<open>labelsField\<close>, \<^verbatim>\<open>SourceLocation\<close>, \<^verbatim>\<open>ServiceContext\<close>
  and \<^verbatim>\<open>ErrorReport\<close> are declared outside \<^verbatim>\<open>core.go\<close>. By the spec each builds one
  field under its reserved key ("must be consistent between the writer and the checker"):
  "one field carrying the full label union (namespaced)", "a field encoding (file, line,
  program-counter, "is this synthesized" flag)", "a field encoding that name" and "a field
  encoding the caller location as an error report". The field is an object field, as
  \<^verbatim>\<open>zap.Object\<close> builds it.
\<close>

definition zap_Object :: "string \<Rightarrow> object \<Rightarrow> Field" where
  "zap_Object k v =
     \<lparr>Key = k, Type = ObjectMarshalerType, Integer = 0, String = [],
      Interface = ObjectMarshalerVal v\<rparr>"

definition labelsField :: "env \<Rightarrow> store \<Rightarrow> Field" where
  "labelsField E l = zap_Object (labelsKey E) (LabelsObject l)"

definition SourceLocation :: "env \<Rightarrow> nat \<Rightarrow> string \<Rightarrow> int \<Rightarrow> bool \<Rightarrow> Field" where
  "SourceLocation E pc file line ok = zap_Object (sourceKey E) (SourceObject pc file line ok)"

definition ServiceContext :: "env \<Rightarrow> string \<Rightarrow> Field" where
  "ServiceContext E name = zap_Object (serviceContextKey E) (ServiceContextObject name)"

definition ErrorReport :: "env \<Rightarrow> nat \<Rightarrow> string \<Rightarrow> int \<Rightarrow> bool \<Rightarrow> Field" where
  "ErrorReport E pc file line ok = zap_Object (contextKey E) (ReportObject pc file line ok)"

subsection \<open>The enrichment rules\<close>

text \<open>
  The guard loop \<^verbatim>\<open>for i := range fields { if fields[i].Key == k { return fields } }\<close>
  of the three rules: \<open>hasKey k fields\<close> holds when the loop returns early.
\<close>

fun hasKey :: "string \<Rightarrow> Field list \<Rightarrow> bool" where
  "hasKey k [] = False"
| "hasKey k (f # fs) = (if Key f = k then True else hasKey k fs)"

definition withSourceLocation :: "env \<Rightarrow> Entry \<Rightarrow> Field list \<Rightarrow> Field list" where
  "withSourceLocation E ent fs =
     (if hasKey (sourceKey E) fs then fs
      else if \<not> Defined (Caller ent) then fs
      else fs @ [SourceLocation E (PC (Caller ent)) (File (Caller ent)) (Line (Caller ent)) True])"

definition withServiceContext :: "env \<Rightarrow> string \<Rightarrow> Field list \<Rightarrow> Field list" where
  "withServiceContext E name fs =
     (if hasKey (serviceContextKey E) fs then fs else fs @ [ServiceContext E name])"

definition withErrorReport :: "env \<Rightarrow> Entry \<Rightarrow> Field list \<Rightarrow> Field list" where
  "withErrorReport E ent fs =
     (if hasKey (contextKey E) fs then fs
      else if \<not> Defined (Caller ent) then fs
      else fs @ [ErrorReport E (PC (Caller ent)) (File (Caller ent)) (Line (Caller ent)) True])"

text \<open>
  The enrichment block of \<^verbatim>\<open>Write\<close> (the statements from \<^verbatim>\<open>withSourceLocation\<close> to the
  end of the \<^verbatim>\<open>ReportAllErrors\<close> conditional), in three steps so that the field set that
  each rule inspects has a name.
\<close>

definition decorate_source :: "env \<Rightarrow> Entry \<Rightarrow> Field list \<Rightarrow> Field list" where
  "decorate_source E ent fs = withSourceLocation E ent fs"

definition decorate_service :: "env \<Rightarrow> driverConfig \<Rightarrow> Entry \<Rightarrow> Field list \<Rightarrow> Field list" where
  "decorate_service E cfg ent fs =
     (let fs1 = decorate_source E ent fs
      in if ServiceName cfg \<noteq> [] then withServiceContext E (ServiceName cfg) fs1 else fs1)"

definition decorate :: "env \<Rightarrow> driverConfig \<Rightarrow> Entry \<Rightarrow> Field list \<Rightarrow> Field list" where
  "decorate E cfg ent fs =
     (let fs2 = decorate_service E cfg ent fs
      in if ReportAllErrors cfg \<and> Enabled ErrorLevel (Level ent)
         then (let fs3 = withErrorReport E ent fs2
               in if ServiceName cfg = [] then withServiceContext E ''unknown'' fs3 else fs3)
         else fs2)"

subsection \<open>Scope creation\<close>

definition allLabels :: "heap \<Rightarrow> core \<Rightarrow> store" where
  "allLabels h c = (Map.empty ++ store_of h (permLabels c)) ++ store_of h (tempLabels c)"

text \<open>
  \<^verbatim>\<open>WrapCore\<close>: two fresh stores, then the options in order. An option is a function on
  the core (\<^verbatim>\<open>ReportAllErrors\<close>, \<^verbatim>\<open>ServiceName\<close>, \<^verbatim>\<open>WithLogger\<close>).
\<close>

definition opt_ReportAllErrors :: "bool \<Rightarrow> core \<Rightarrow> core" where
  "opt_ReportAllErrors report c = c\<lparr>config := (config c)\<lparr>ReportAllErrors := report\<rparr>\<rparr>"

definition opt_ServiceName :: "string \<Rightarrow> core \<Rightarrow> core" where
  "opt_ServiceName name c = c\<lparr>config := (config c)\<lparr>ServiceName := name\<rparr>\<rparr>"

definition WithLogger :: "Logger \<Rightarrow> core \<Rightarrow> core" where
  "WithLogger logger c = c\<lparr>lg := Some logger\<rparr>"

definition WrapCore :: "(core \<Rightarrow> core) list \<Rightarrow> heap \<Rightarrow> sink \<Rightarrow> core \<times> heap" where
  "WrapCore options h s =
     (let (p, h1) = newLabels h;
          (t, h2) = newLabels h1;
          newcore = \<lparr>Core = s, core_fields = [], lg = None, permLabels = p, tempLabels = t,
                     config = \<lparr>ReportAllErrors = False, ServiceName = []\<rparr>\<rparr>
      in (fold (\<lambda>option c. option c) options newcore, h2))"

definition With :: "heap \<Rightarrow> core \<Rightarrow> Field list \<Rightarrow> core \<times> heap" where
  "With h c fs =
     (let (lbls, fs1) = extractLabels fs;
          h1 = merge_into (permLabels c) lbls h;
          fieldsCopy = core_fields c @ fs1;
          (t, h2) = newLabels h1
      in (\<lparr>Core = Core_With (Core c) fs1, core_fields = fieldsCopy, lg = lg c,
           permLabels = permLabels c, tempLabels = t, config = config c\<rparr>, h2))"

subsection \<open>\<^verbatim>\<open>Write\<close>\<close>

text \<open>
  The payload loop \<^verbatim>\<open>for _, f := range c.fields { payload[f.Key] = ToInterface(f) }\<close>;
  a panic of \<^verbatim>\<open>ToInterface\<close> ends it.
\<close>

fun payload_loop :: "env \<Rightarrow> Field list \<Rightarrow> (string \<rightharpoonup> goval) \<Rightarrow> panic + (string \<rightharpoonup> goval)" where
  "payload_loop E [] payload = Inr payload"
| "payload_loop E (f # fs) payload =
     (case ToInterface E f of
        Inl p \<Rightarrow> Inl p
      | Inr v \<Rightarrow> payload_loop E fs (payload(Key f \<mapsto> v)))"

definition glog :: "Entry \<Rightarrow> (string \<rightharpoonup> goval) \<Rightarrow> store \<Rightarrow> LogEntry" where
  "glog ent payload lbls =
     \<lparr>Timestamp = Time ent, Severity = logLevelSeverityGoogle (Level ent), Payload = payload,
      Labels = lbls, InsertID = [], HTTPRequest = None, Operation = None, LogName = [],
      Resource = None, Trace = [], SpanID = [], TraceSampled = False,
      SourceLocationFile = File (Caller ent), SourceLocationLine = Line (Caller ent)\<rparr>"

text \<open>
  What a completed \<^verbatim>\<open>Write\<close> has done: the heap of label stores it leaves, the entry it
  handed to the remote client and that dispatch's outcome, the field set it handed to the
  wrapped sink, and the error it returns.
\<close>

record write_result =
  heap_after :: heap
  logged :: LogEntry
  remote_outcome :: bool
  written :: "Field list"
  err :: error

definition Write :: "env \<Rightarrow> heap \<Rightarrow> core \<Rightarrow> Entry \<Rightarrow> Field list \<Rightarrow> panic + write_result" where
  "Write E h c ent fs =
     (let (lbls, fs1) = extractLabels fs;
          h1 = merge_into (tempLabels c) lbls h
      in case payload_loop E (core_fields c) Map.empty of
           Inl p \<Rightarrow> Inl p
         | Inr payload0 \<Rightarrow>
             (let payload = payload0(''message'' \<mapsto> StringVal (Message ent));
                  g = glog ent payload (allLabels h1 c)
              in case lg c of
                   None \<Rightarrow> Inl NilDereference
                 | Some logger \<Rightarrow>
                     (let outcome = logger g;
                          fs2 = fs1 @ [labelsField E (allLabels h1 c)];
                          fs3 = decorate E (config c) ent fs2;
                          h2 = reset (tempLabels c) h1;
                          e = Core_Write (Core c) ent fs3
                      in Inr \<lparr>heap_after = h2, logged = g, remote_outcome = outcome,
                              written = fs3, err = e\<rparr>)))"

section \<open>Notions used to state the properties\<close>

text \<open>
  The opaque slot of a field holds what its tag designates: the tags whose rule asserts a
  dynamic type need a value of that type, a timestamp needs no location or a non-nil one,
  and every other tag leaves the slot free.
\<close>

definition slot_matches_tag :: "Field \<Rightarrow> bool" where
  "slot_matches_tag f =
     (case Type f of
        ArrayMarshalerType \<Rightarrow> (case Interface f of ArrayMarshalerVal a \<Rightarrow> True | _ \<Rightarrow> False)
      | ObjectMarshalerType \<Rightarrow> (case Interface f of ObjectMarshalerVal a \<Rightarrow> True | _ \<Rightarrow> False)
      | BinaryType \<Rightarrow> (case Interface f of BytesVal b \<Rightarrow> True | _ \<Rightarrow> False)
      | ByteStringType \<Rightarrow> (case Interface f of BytesVal b \<Rightarrow> True | _ \<Rightarrow> False)
      | Complex128Type \<Rightarrow> (case Interface f of Complex128Val r i \<Rightarrow> True | _ \<Rightarrow> False)
      | Complex64Type \<Rightarrow> (case Interface f of Complex64Val r i \<Rightarrow> True | _ \<Rightarrow> False)
      | TimeType \<Rightarrow>
          (case Interface f of NilVal \<Rightarrow> True | LocationPtr (Some z) \<Rightarrow> True | _ \<Rightarrow> False)
      | _ \<Rightarrow> True)"

text \<open>
  A core on which \<^verbatim>\<open>Write\<close> runs to its end: the remote client is set and every
  accumulated field converts.
\<close>

definition write_ready :: "core \<Rightarrow> bool" where
  "write_ready c = (lg c \<noteq> None \<and> list_all slot_matches_tag (core_fields c))"

text \<open>The key of a label field without the prefix, and the entries that label fields stand for.\<close>

definition label_key :: "Field \<Rightarrow> string" where
  "label_key f = drop (length ''labels.'') (Key f)"

definition label_entries :: "Field list \<Rightarrow> (string \<times> string) list" where
  "label_entries fs = map (\<lambda>f. (label_key f, String f)) (filter isLabelField fs)"

text \<open>The fields that the enrichment block adds behind the field set it is given.\<close>

definition appended :: "env \<Rightarrow> driverConfig \<Rightarrow> Entry \<Rightarrow> Field list \<Rightarrow> Field list" where
  "appended E cfg ent fs = drop (length fs) (decorate E cfg ent fs)"

definition count_key :: "string \<Rightarrow> Field list \<Rightarrow> nat" where
  "count_key k fs = length (filter (\<lambda>f. Key f = k) fs)"

text \<open>
  \<open>gs\<close> is \<open>fs\<close> with fields added behind it whose keys are new: different from each other
  and from every key of \<open>fs\<close>.
\<close>

definition extends_fresh :: "Field list \<Rightarrow> Field list \<Rightarrow> bool" where
  "extends_fresh fs gs =
     (take (length fs) gs = fs \<and> distinct (map Key (drop (length fs) gs)) \<and>
      list_all (\<lambda>f. Key f \<notin> Key ` set (drop (length fs) gs)) fs)"

section \<open>Example inputs\<close>

definition example_env :: env where
  "example_env =
     \<lparr>labelsKey = ''labels'', sourceKey = ''sourceLocation'',
      serviceContextKey = ''serviceContext'', contextKey = ''context'',
      fmt_value = (\<lambda>v. ''<nil>'')\<rparr>"

definition zap_String :: "string \<Rightarrow> string \<Rightarrow> Field" where
  "zap_String k v = \<lparr>Key = k, Type = StringType, Integer = 0, String = v, Interface = NilVal\<rparr>"

definition zap_Int64 :: "string \<Rightarrow> 64 word \<Rightarrow> Field" where
  "zap_Int64 k v = \<lparr>Key = k, Type = Int64Type, Integer = v, String = [], Interface = NilVal\<rparr>"

definition example_bool :: "64 word \<Rightarrow> Field" where
  "example_bool i = \<lparr>Key = ''ok'', Type = BoolType, Integer = i, String = [], Interface = NilVal\<rparr>"

definition example_binary_nil :: Field where
  "example_binary_nil =
     \<lparr>Key = ''blob'', Type = BinaryType, Integer = 0, String = [], Interface = NilVal\<rparr>"

definition example_unknown :: Field where
  "example_unknown =
     \<lparr>Key = ''k'', Type = OtherType 77, Integer = - 5, String = ''s'', Interface = NilVal\<rparr>"

definition example_time_nil :: Field where
  "example_time_nil =
     \<lparr>Key = ''ts'', Type = TimeType, Integer = 0, String = [], Interface = NilVal\<rparr>"

definition example_sink :: sink where
  "example_sink = \<lparr>ctx = [], behaviour = (\<lambda>c ent fs. Some ''disk full'')\<rparr>"

definition example_logger :: Logger where
  "example_logger = (\<lambda>g. False)"

definition example_heap :: heap where
  "example_heap = \<lparr>store_of = (\<lambda>r. Map.empty)(0 := [''env'' \<mapsto> ''prod'']), next_ref = 3\<rparr>"

text \<open>
  The scope of the spec's scenario: created from a wrapped core by \<^verbatim>\<open>With\<close> on
  \<^verbatim>\<open>[labels.env="prod", user="x"]\<close> (lemma \<open>example_scope_created\<close> below).
\<close>

definition example_core :: core where
  "example_core =
     \<lparr>Core = Core_With example_sink [zap_String ''user'' ''x''],
      core_fields = [zap_String ''user'' ''x''],
      lg = Some example_logger, permLabels = 0, tempLabels = 2,
      config = \<lparr>ReportAllErrors = True, ServiceName = []\<rparr>\<rparr>"

definition example_entry :: Entry where
  "example_entry =
     \<lparr>Level = ErrorLevel, Time = \<lparr>unixNano = 0, loc = UTC\<rparr>, LoggerName = [],
      Message = ''boom'',
      Caller = \<lparr>Defined = True, PC = 4096, File = ''main.go'', Line = 10\<rparr>, Stack = []\<rparr>"

definition example_fields :: "Field list" where
  "example_fields = [zap_String ''labels.request_id'' ''42'', zap_Int64 ''status'' 200]"

definition example_config :: driverConfig where
  "example_config = \<lparr>ReportAllErrors = True, ServiceName = []\<rparr>"

definition example_scope_fields :: "Field list" where
  "example_scope_fields = [zap_String ''labels.env'' ''prod'', zap_String ''user'' ''x'']"

definition example_duplicate_labels :: "Field list" where
  "example_duplicate_labels = [zap_String ''labels.a'' ''1'', zap_String ''labels.a'' ''2'']"

definition empty_heap :: heap where
  "empty_heap = \<lparr>store_of = (\<lambda>r. Map.empty), next_ref = 0\<rparr>"

definition example_caller_service :: "Field list" where
  "example_caller_service = [zap_Object ''serviceContext'' (ServiceContextObject ''billing'')]"

definition example_caller_source :: "Field list" where
  "example_caller_source = [zap_Object ''sourceLocation'' (SourceObject 1 ''lib.go'' 7 False)]"

section \<open>Properties of value normalisation\<close>

lemma ToInterface_Inr_iff: "(\<exists>v. ToInterface E f = Inr v) = slot_matches_tag f"
  by (cases "Type f"; cases "Interface f")
     (auto simp: ToInterface_def slot_matches_tag_def assert_ArrayMarshaler_def
        assert_ObjectMarshaler_def assert_bytes_def assert_complex128_def
        assert_complex64_def assert_Location_def time_In_def split: option.splits)

lemma ToInterface_time:
  "Type f = TimeType \<Longrightarrow>
   ToInterface E f =
     (case Interface f of
        NilVal \<Rightarrow> Inr (TimeVal \<lparr>unixNano = sint (Integer f), loc = Local\<rparr>)
      | LocationPtr (Some z) \<Rightarrow> Inr (TimeVal \<lparr>unixNano = sint (Integer f), loc = z\<rparr>)
      | LocationPtr None \<Rightarrow> Inl MissingLocation
      | _ \<Rightarrow> Inl TypeAssertion)"
  by (cases "Interface f")
     (auto simp: ToInterface_def time_Unix_def time_In_def assert_Location_def
        split: option.splits)

text \<open>
  C7, as the code has it: for a boolean-tagged field the result is the boolean
  \<^verbatim>\<open>f.Integer == 1\<close>; it is true for the integer slot 1 and false for every other value
  of the slot, zero or not.
\<close>

theorem ToInterface_bool_is_one:
  "Type f = BoolType \<Longrightarrow> ToInterface E f = Inr (BoolVal (Integer f = 1))"
  by (simp add: ToInterface_def)

theorem ToInterface_bool_is_one_witness:
  "Type (example_bool 1) = BoolType \<and>
   ToInterface example_env (example_bool 1) = Inr (BoolVal True)"
proof -
  have h: "Type (example_bool 1) = BoolType" by (simp add: example_bool_def)
  from ToInterface_bool_is_one [OF h, of example_env] h show ?thesis
    by (simp add: example_bool_def)
qed

text \<open>
  C7 as stated fails: the boolean-tagged field with the non-zero integer slot 2 is
  normalised to false.
\<close>

theorem ToInterface_bool_nonzero_counterexample:
  "Integer (example_bool 2) \<noteq> 0 \<and>
   ToInterface example_env (example_bool 2) = Inr (BoolVal False)"
  by (simp add: ToInterface_def example_bool_def)

text \<open>
  C8, amended: \<^verbatim>\<open>ToInterface\<close> is a case distinction on the tag, so exactly one rule
  applies to a field. For every field whose opaque slot holds what its tag designates
  the conversion returns a value, and for an unrecognised tag \<open>n\<close> (whatever the slots
  hold) that value is a non-empty string that starts with \<^verbatim>\<open>unknown field type: \<close> and
  contains the decimal tag \<open>n\<close>.
\<close>

theorem ToInterface_total_on_matching_slots:
  assumes "slot_matches_tag f"
  shows "\<exists>v. ToInterface E f = Inr v \<and>
           (\<forall>n. Type f = OtherType n \<longrightarrow>
              (\<exists>s a b. v = StringVal s \<and> s \<noteq> [] \<and> prefix ''unknown field type: '' s \<and>
                 s = a @ dec n @ b))"
proof -
  from assms obtain v where v: "ToInterface E f = Inr v"
    using ToInterface_Inr_iff [of E f] by blast
  have "\<exists>s a b. v = StringVal s \<and> s \<noteq> [] \<and> prefix ''unknown field type: '' s \<and>
          s = a @ dec n @ b"
    if n: "Type f = OtherType n" for n
  proof -
    let ?a = "''unknown field type: '' @ ''{'' @ Key f @ '' ''"
    let ?b = "'' '' @ dec_int (sint (Integer f)) @ '' '' @ String f @ '' '' @
              fmt_value E (Interface f) @ ''}''"
    from v n have "v = StringVal (?a @ dec n @ ?b)"
      by (simp add: ToInterface_def fmt_Field_def)
    moreover have "?a @ dec n @ ?b \<noteq> []" by simp
    moreover have "prefix ''unknown field type: '' (?a @ dec n @ ?b)" by simp
    ultimately show ?thesis by blast
  qed
  with v show ?thesis by blast
qed

theorem ToInterface_total_on_matching_slots_witness:
  "slot_matches_tag example_unknown \<and> Type example_unknown = OtherType 77 \<and>
   (\<exists>s a b. ToInterface example_env example_unknown = Inr (StringVal s) \<and> s \<noteq> [] \<and>
      prefix ''unknown field type: '' s \<and> s = a @ dec 77 @ b)"
proof -
  have h: "slot_matches_tag example_unknown"
    by (simp add: slot_matches_tag_def example_unknown_def)
  have t: "Type example_unknown = OtherType 77"
    by (simp add: example_unknown_def)
  from ToInterface_total_on_matching_slots [OF h, of example_env] t
  have "\<exists>s a b. ToInterface example_env example_unknown = Inr (StringVal s) \<and> s \<noteq> [] \<and>
      prefix ''unknown field type: '' s \<and> s = a @ dec 77 @ b"
    by blast
  with h t show ?thesis by blast
qed

text \<open>
  C8 as stated fails: a binary-tagged field whose opaque slot is nil makes the type
  assertion of its rule panic.
\<close>

theorem ToInterface_panics_counterexample:
  "ToInterface example_env example_binary_nil = Inl TypeAssertion"
  by (simp add: ToInterface_def assert_bytes_def example_binary_nil_def)

text \<open>
  C9: for a timestamp-tagged field without a location the code returns
  \<^verbatim>\<open>time.Unix(0, f.Integer)\<close>, which is the instant in the \<^emph>\<open>local\<close> zone of the host,
  not in UTC as the claim and the comment in the code say.
\<close>

theorem ToInterface_time_without_location_is_Local:
  "ToInterface example_env example_time_nil = Inr (TimeVal \<lparr>unixNano = 0, loc = Local\<rparr>) \<and>
   Local \<noteq> UTC"
  by (simp add: ToInterface_def time_Unix_def example_time_nil_def)

section \<open>Properties of field classification\<close>

lemma strings_Replace1_prefix:
  "prefix old s \<Longrightarrow> strings_Replace1 s old new = new @ drop (length old) s"
  by (cases s) auto

lemma label_key_Replace:
  "isLabelField f \<Longrightarrow> strings_Replace1 (Key f) ''labels.'' '''' = label_key f"
  by (simp add: isLabelField_def label_key_def strings_Replace1_prefix)

lemma label_entries_Cons:
  "label_entries (f # fs) =
     (if isLabelField f then (label_key f, String f) # label_entries fs else label_entries fs)"
  by (simp add: label_entries_def)

lemma label_entries_append: "label_entries (xs @ ys) = label_entries xs @ label_entries ys"
  by (simp add: label_entries_def)

text \<open>
  The loop, from any intermediate state: the label store gains the entries of the label
  fields, a later entry overwriting an earlier one with the same key, and the
  pass-through list gains the other fields in order.
\<close>

lemma extractLabels_loop_eq:
  "extractLabels_loop fs (lbls, out) =
     (lbls ++ map_of (rev (label_entries fs)), out @ filter (\<lambda>f. \<not> isLabelField f) fs)"
proof (induction fs arbitrary: lbls out)
  case Nil
  show ?case by (simp add: label_entries_def)
next
  case (Cons f fs)
  show ?case
  proof (cases "isLabelField f")
    case True
    then have "extractLabels_loop (f # fs) (lbls, out) =
               extractLabels_loop fs (lbls(label_key f \<mapsto> String f), out)"
      by (simp add: label_key_Replace)
    also have "\<dots> = (lbls(label_key f \<mapsto> String f) ++ map_of (rev (label_entries fs)),
                      out @ filter (\<lambda>f. \<not> isLabelField f) fs)"
      by (rule Cons.IH)
    also have "\<dots> = (lbls ++ map_of (rev (label_entries (f # fs))),
                      out @ filter (\<lambda>f. \<not> isLabelField f) (f # fs))"
      using True
      by (simp add: label_entries_Cons fun_eq_iff map_add_def split: option.splits)
    finally show ?thesis .
  next
    case False
    with Cons show ?thesis by (simp add: label_entries_Cons)
  qed
qed

lemma extractLabels_eq:
  "extractLabels fs = (map_of (rev (label_entries fs)), filter (\<lambda>f. \<not> isLabelField f) fs)"
  by (simp add: extractLabels_def extractLabels_loop_eq)

lemma fst_set_label_entries:
  "fst ` set (label_entries fs) = label_key ` {f \<in> set fs. isLabelField f}"
  by (auto simp: label_entries_def image_iff)

lemma label_last_wins:
  assumes "isLabelField f" "\<forall>g \<in> set post. isLabelField g \<longrightarrow> label_key g \<noteq> label_key f"
  shows "map_of (rev (label_entries (pre @ f # post))) (label_key f) = Some (String f)"
proof -
  from assms(2) have "label_key f \<notin> fst ` set (rev (label_entries post))"
    by (auto simp: fst_set_label_entries)
  then have "map_of (rev (label_entries post)) (label_key f) = None"
    by (simp add: map_of_eq_None_iff)
  with assms(1) show ?thesis
    by (simp add: label_entries_append label_entries_Cons map_add_def)
qed

lemma isLabelField_prefix: "isLabelField f \<Longrightarrow> prefix ''labels.'' (Key f)"
  by (simp add: isLabelField_def)

text \<open>
  C1, amended: classification partitions the string-typed fields with the label prefix and
  the fields without the prefix. The pass-through list is a subsequence of the input and
  holds every field without the prefix, in the original relative order. A string-typed
  field with the prefix puts its stripped key into the label mapping and is not passed
  through; the value under that key is its string value unless a later field of the input
  with the prefix has the same stripped key (the later one overwrites it). Every entry of
  the mapping comes from a field with the prefix.
\<close>

theorem extractLabels_partition:
  "subseq (snd (extractLabels fs)) fs \<and>
   filter (\<lambda>f. \<not> prefix ''labels.'' (Key f)) (snd (extractLabels fs)) =
     filter (\<lambda>f. \<not> prefix ''labels.'' (Key f)) fs \<and>
   (\<forall>f \<in> set fs. \<not> prefix ''labels.'' (Key f) \<longrightarrow> f \<in> set (snd (extractLabels fs))) \<and>
   (\<forall>f \<in> set fs. prefix ''labels.'' (Key f) \<and> Type f = StringType \<longrightarrow>
       label_key f \<in> dom (fst (extractLabels fs)) \<and> f \<notin> set (snd (extractLabels fs))) \<and>
   (\<forall>pre f post. fs = pre @ f # post \<and> prefix ''labels.'' (Key f) \<and> Type f = StringType \<and>
       (\<forall>g \<in> set post. prefix ''labels.'' (Key g) \<longrightarrow> label_key g \<noteq> label_key f) \<longrightarrow>
       fst (extractLabels fs) (label_key f) = Some (String f)) \<and>
   (\<forall>k v. fst (extractLabels fs) k = Some v \<longrightarrow>
       (\<exists>f \<in> set fs. prefix ''labels.'' (Key f) \<and> label_key f = k \<and> String f = v))"
proof -
  let ?np = "\<lambda>f. \<not> prefix ''labels.'' (Key f)"
  let ?out = "filter (\<lambda>f. \<not> isLabelField f) fs"
  let ?lbls = "map_of (rev (label_entries fs))"
  have e: "extractLabels fs = (?lbls, ?out)" by (rule extractLabels_eq)
  have 1: "subseq ?out fs" by simp
  have 2: "filter ?np ?out = filter ?np fs"
    by (auto simp: isLabelField_def intro: filter_cong)
  have 3: "f \<in> set ?out" if "f \<in> set fs" "?np f" for f
    using that by (auto dest: isLabelField_prefix)
  have 4: "label_key f \<in> dom ?lbls \<and> f \<notin> set ?out"
    if "f \<in> set fs" "prefix ''labels.'' (Key f) \<and> Type f = StringType" for f
  proof -
    from that(2) have l: "isLabelField f" by (simp add: isLabelField_def)
    with that(1) have "label_key f \<in> fst ` set (label_entries fs)"
      by (auto simp: fst_set_label_entries)
    then have "label_key f \<in> dom ?lbls"
      by (simp add: dom_map_of_conv_image_fst)
    with l show ?thesis by simp
  qed
  have 5: "?lbls (label_key f) = Some (String f)"
    if "fs = pre @ f # post" "prefix ''labels.'' (Key f) \<and> Type f = StringType"
      "\<forall>g \<in> set post. prefix ''labels.'' (Key g) \<longrightarrow> label_key g \<noteq> label_key f"
    for pre f post
  proof -
    from that(2) have l: "isLabelField f" by (simp add: isLabelField_def)
    from that(3) have "\<forall>g \<in> set post. isLabelField g \<longrightarrow> label_key g \<noteq> label_key f"
      by (auto dest: isLabelField_prefix)
    with l show ?thesis unfolding that(1) by (rule label_last_wins)
  qed
  have 6: "\<exists>f \<in> set fs. prefix ''labels.'' (Key f) \<and> label_key f = k \<and> String f = v"
    if "?lbls k = Some v" for k v
  proof -
    from that have "(k, v) \<in> set (label_entries fs)"
      by (auto dest: map_of_SomeD)
    then show ?thesis by (auto simp: label_entries_def dest: isLabelField_prefix)
  qed
  from 1 2 3 4 5 6 show ?thesis unfolding e fst_conv snd_conv by blast
qed

theorem extractLabels_partition_witness:
  "prefix ''labels.'' (Key (zap_String ''labels.env'' ''prod'')) \<and>
   Type (zap_String ''labels.env'' ''prod'') = StringType \<and>
   zap_String ''labels.env'' ''prod'' \<in> set example_scope_fields \<and>
   fst (extractLabels example_scope_fields) ''env'' = Some ''prod'' \<and>
   zap_String ''labels.env'' ''prod'' \<notin> set (snd (extractLabels example_scope_fields)) \<and>
   \<not> prefix ''labels.'' (Key (zap_String ''user'' ''x'')) \<and>
   zap_String ''user'' ''x'' \<in> set (snd (extractLabels example_scope_fields))"
proof -
  let ?l = "zap_String ''labels.env'' ''prod''" and ?u = "zap_String ''user'' ''x''"
  have l: "prefix ''labels.'' (Key ?l) \<and> Type ?l = StringType"
    and u: "\<not> prefix ''labels.'' (Key ?u)"
    by (simp_all add: zap_String_def)
  have s: "example_scope_fields = [] @ ?l # [?u]"
    by (simp add: example_scope_fields_def)
  have p: "\<forall>g \<in> set [?u]. prefix ''labels.'' (Key g) \<longrightarrow> label_key g \<noteq> label_key ?l"
    using u by simp
  have k: "label_key ?l = ''env''" by (simp add: label_key_def zap_String_def)
  have m: "?l \<in> set example_scope_fields" "?u \<in> set example_scope_fields"
    by (simp_all add: example_scope_fields_def)
  note t = extractLabels_partition [of example_scope_fields]
  from t s l p
  have a: "fst (extractLabels example_scope_fields) (label_key ?l) = Some (String ?l)"
    by blast
  from t m(1) l have b: "?l \<notin> set (snd (extractLabels example_scope_fields))"
    by blast
  from t m(2) u have c: "?u \<in> set (snd (extractLabels example_scope_fields))"
    by blast
  from a have "fst (extractLabels example_scope_fields) ''env'' = Some ''prod''"
    by (simp add: k) (simp add: zap_String_def)
  with l u m(1) b c show ?thesis by blast
qed

text \<open>
  C1 as stated fails on two label fields with one key: the first is a string-typed field of
  the input whose key begins with the prefix, yet the mapping does not hold its value under
  its stripped key, and it is not passed through either.
\<close>

theorem extractLabels_duplicate_counterexample:
  "zap_String ''labels.a'' ''1'' \<in> set example_duplicate_labels \<and>
   prefix ''labels.'' (Key (zap_String ''labels.a'' ''1'')) \<and>
   Type (zap_String ''labels.a'' ''1'') = StringType \<and>
   fst (extractLabels example_duplicate_labels) (label_key (zap_String ''labels.a'' ''1'')) \<noteq>
     Some (String (zap_String ''labels.a'' ''1'')) \<and>
   zap_String ''labels.a'' ''1'' \<notin> set (snd (extractLabels example_duplicate_labels))"
  by (simp add: example_duplicate_labels_def extractLabels_def isLabelField_def zap_String_def
        label_key_def)

section \<open>Properties of \<^verbatim>\<open>Write\<close>\<close>

text \<open>The map-copy loop gives the overlay, whatever the order of the visit.\<close>

lemma range_copy_restrict:
  "set ks \<subseteq> dom src \<Longrightarrow> range_copy ks src dst = dst ++ (src |` set ks)"
proof (induction ks arbitrary: dst)
  case Nil
  show ?case by simp
next
  case (Cons k ks)
  then obtain v where v: "src k = Some v" by auto
  from Cons have "range_copy (k # ks) src dst = dst(k \<mapsto> v) ++ (src |` set ks)"
    by (simp add: v)
  also have "\<dots> = dst ++ (src |` set (k # ks))"
    by (auto simp: fun_eq_iff map_add_def restrict_map_def v split: option.splits)
  finally show ?case .
qed

lemma range_copy_map_add: "set ks = dom src \<Longrightarrow> range_copy ks src dst = dst ++ src"
  by (simp add: range_copy_restrict restrict_map_def map_add_def fun_eq_iff domIff split: option.splits)

lemma allLabels_eq: "allLabels h c = store_of h (permLabels c) ++ store_of h (tempLabels c)"
  by (simp add: allLabels_def)

text \<open>
  The payload loop ends without a panic exactly when every accumulated field converts;
  it then holds one entry per key of the fields.
\<close>

lemma payload_loop_ok:
  "list_all slot_matches_tag fs \<Longrightarrow>
   \<exists>p'. payload_loop E fs p = Inr p' \<and> dom p' = dom p \<union> Key ` set fs"
proof (induction fs arbitrary: p)
  case Nil
  show ?case by simp
next
  case (Cons f fs)
  then obtain v where v: "ToInterface E f = Inr v"
    using ToInterface_Inr_iff [of E f] by auto
  from Cons.prems have fs: "list_all slot_matches_tag fs" by simp
  from Cons.IH [OF fs, of "p(Key f \<mapsto> v)"]
  obtain p' where a: "payload_loop E fs (p(Key f \<mapsto> v)) = Inr p'"
    and b: "dom p' = dom (p(Key f \<mapsto> v)) \<union> Key ` set fs"
    by blast
  from v a b show ?case by auto
qed

lemma payload_loop_panics:
  "\<not> list_all slot_matches_tag fs \<Longrightarrow> \<exists>x. payload_loop E fs p = Inl x"
proof (induction fs arbitrary: p)
  case Nil
  then show ?case by simp
next
  case (Cons f fs)
  show ?case
  proof (cases "ToInterface E f")
    case (Inl x)
    then show ?thesis by simp
  next
    case (Inr v)
    then have "slot_matches_tag f" using ToInterface_Inr_iff [of E f] by auto
    with Cons Inr show ?thesis by simp
  qed
qed

text \<open>
  \<^verbatim>\<open>Write\<close> runs to its end exactly on a ready core, and then does the following.
\<close>

lemma Write_runs:
  assumes "write_ready c"
  shows "\<exists>p0 logger.
           payload_loop E (core_fields c) Map.empty = Inr p0 \<and>
           dom p0 = Key ` set (core_fields c) \<and>
           lg c = Some logger \<and>
           Write E h c ent fs =
             (let h1 = merge_into (tempLabels c) (fst (extractLabels fs)) h;
                  g = glog ent (p0(''message'' \<mapsto> StringVal (Message ent))) (allLabels h1 c);
                  fs3 = decorate E (config c) ent
                          (snd (extractLabels fs) @ [labelsField E (allLabels h1 c)])
              in Inr \<lparr>heap_after = reset (tempLabels c) h1, logged = g,
                      remote_outcome = logger g, written = fs3,
                      err = Core_Write (Core c) ent fs3\<rparr>)"
proof -
  from assms obtain logger where l: "lg c = Some logger"
    by (auto simp: write_ready_def)
  from assms have "list_all slot_matches_tag (core_fields c)"
    by (simp add: write_ready_def)
  from payload_loop_ok [OF this, of E Map.empty]
  obtain p0 where p: "payload_loop E (core_fields c) Map.empty = Inr p0"
    and d: "dom p0 = Key ` set (core_fields c)" by auto
  have "Write E h c ent fs =
          (let h1 = merge_into (tempLabels c) (fst (extractLabels fs)) h;
               g = glog ent (p0(''message'' \<mapsto> StringVal (Message ent))) (allLabels h1 c);
               fs3 = decorate E (config c) ent
                       (snd (extractLabels fs) @ [labelsField E (allLabels h1 c)])
           in Inr \<lparr>heap_after = reset (tempLabels c) h1, logged = g,
                   remote_outcome = logger g, written = fs3,
                   err = Core_Write (Core c) ent fs3\<rparr>)"
    unfolding Write_def by (simp add: p l split_beta)
  with p d l show ?thesis by blast
qed

lemma Write_panics:
  assumes "\<not> write_ready c"
  shows "\<exists>x. Write E h c ent fs = Inl x"
proof (cases "list_all slot_matches_tag (core_fields c)")
  case False
  from payload_loop_panics [OF this, of E Map.empty]
  obtain x where "payload_loop E (core_fields c) Map.empty = Inl x" by blast
  then have "Write E h c ent fs = Inl x"
    unfolding Write_def by (simp add: split_beta)
  then show ?thesis by blast
next
  case True
  with assms have n: "lg c = None" by (simp add: write_ready_def)
  from payload_loop_ok [OF True, of E Map.empty]
  obtain p0 where "payload_loop E (core_fields c) Map.empty = Inr p0" by auto
  with n have "Write E h c ent fs = Inl NilDereference"
    unfolding Write_def by (simp add: split_beta)
  then show ?thesis by blast
qed

lemma write_ready_example: "write_ready example_core"
  by (simp add: write_ready_def example_core_def slot_matches_tag_def zap_String_def)

lemma extractLabels_example_fields:
  "extractLabels example_fields = ([''request_id'' \<mapsto> ''42''], [zap_Int64 ''status'' 200])"
  by (simp add: extractLabels_def example_fields_def isLabelField_def zap_String_def
        zap_Int64_def)

text \<open>
  C2: on a core whose two stores are different objects (\<^verbatim>\<open>WrapCore\<close> and \<^verbatim>\<open>With\<close>
  allocate the temporary store freshly), a write runs to its end, leaves the temporary store
  empty and the permanent store with its pre-write contents; any later write on the scope
  dispatches the permanent labels overlaid with its own labels only, so a temporary label
  of the first write does not survive into it.
\<close>

theorem Write_resets_temporary_store:
  assumes "write_ready c" and "permLabels c \<noteq> tempLabels c"
  shows "\<exists>r. Write E h c ent fs = Inr r \<and>
           store_of (heap_after r) (tempLabels c) = Map.empty \<and>
           store_of (heap_after r) (permLabels c) = store_of h (permLabels c) \<and>
           (\<forall>ent' fs'. \<exists>r'. Write E (heap_after r) c ent' fs' = Inr r' \<and>
              Labels (logged r') = store_of h (permLabels c) ++ fst (extractLabels fs'))"
proof -
  let ?h2 = "reset (tempLabels c) (merge_into (tempLabels c) (fst (extractLabels fs)) h)"
  from Write_runs [OF assms(1), of E h ent fs]
  obtain r where r: "Write E h c ent fs = Inr r" and h2: "heap_after r = ?h2"
    by (auto simp: Let_def)
  have t: "store_of ?h2 (tempLabels c) = Map.empty"
    by (simp add: reset_def)
  have p: "store_of ?h2 (permLabels c) = store_of h (permLabels c)"
    using assms(2) by (simp add: reset_def merge_into_def)
  have "\<exists>r'. Write E ?h2 c ent' fs' = Inr r' \<and>
          Labels (logged r') = store_of h (permLabels c) ++ fst (extractLabels fs')"
    for ent' fs'
  proof -
    from Write_runs [OF assms(1), of E ?h2 ent' fs']
    obtain r' where "Write E ?h2 c ent' fs' = Inr r'"
      and "Labels (logged r') =
             allLabels (merge_into (tempLabels c) (fst (extractLabels fs')) ?h2) c"
      by (auto simp: Let_def glog_def)
    moreover have "allLabels (merge_into (tempLabels c) (fst (extractLabels fs')) ?h2) c =
                   store_of h (permLabels c) ++ fst (extractLabels fs')"
      using assms(2) by (simp add: allLabels_eq merge_into_def reset_def)
    ultimately show ?thesis by auto
  qed
  with r h2 t p show ?thesis by auto
qed

theorem Write_resets_temporary_store_witness:
  "write_ready example_core \<and> permLabels example_core \<noteq> tempLabels example_core \<and>
   (\<exists>r. Write example_env example_heap example_core example_entry example_fields = Inr r \<and>
        store_of (heap_after r) 2 = Map.empty \<and>
        store_of (heap_after r) 0 = [''env'' \<mapsto> ''prod''])"
proof -
  have a: "write_ready example_core" by (rule write_ready_example)
  have b: "permLabels example_core \<noteq> tempLabels example_core"
    by (simp add: example_core_def)
  from Write_resets_temporary_store [OF a b, of example_env example_heap example_entry example_fields]
  obtain r where "Write example_env example_heap example_core example_entry example_fields = Inr r"
    and "store_of (heap_after r) (tempLabels example_core) = Map.empty"
    and "store_of (heap_after r) (permLabels example_core) =
         store_of example_heap (permLabels example_core)"
    by blast
  then have "\<exists>r. Write example_env example_heap example_core example_entry example_fields = Inr r \<and>
        store_of (heap_after r) 2 = Map.empty \<and>
        store_of (heap_after r) 0 = [''env'' \<mapsto> ''prod'']"
    by (simp add: example_core_def example_heap_def)
  with a b show ?thesis by blast
qed

text \<open>
  C3: the label map of the entry dispatched to the remote client is the permanent store
  overlaid with the temporary store as it is after the labels of this write were merged
  into it: a key keeps the temporary store's value when that store has it, and the
  permanent store's value otherwise.
\<close>

theorem Write_dispatches_label_union:
  assumes "write_ready c"
  shows "\<exists>r. Write E h c ent fs = Inr r \<and>
           Labels (logged r) =
             store_of h (permLabels c) ++ (store_of h (tempLabels c) ++ fst (extractLabels fs)) \<and>
           (\<forall>k. Labels (logged r) k =
              (case (store_of h (tempLabels c) ++ fst (extractLabels fs)) k of
                 Some v \<Rightarrow> Some v
               | None \<Rightarrow> store_of h (permLabels c) k))"
proof -
  let ?h1 = "merge_into (tempLabels c) (fst (extractLabels fs)) h"
  let ?u = "store_of h (permLabels c) ++ (store_of h (tempLabels c) ++ fst (extractLabels fs))"
  from Write_runs [OF assms, of E h ent fs]
  obtain r where r: "Write E h c ent fs = Inr r" and l: "Labels (logged r) = allLabels ?h1 c"
    by (auto simp: Let_def glog_def)
  have "allLabels ?h1 c = ?u"
    by (cases "permLabels c = tempLabels c")
       (auto simp: allLabels_eq merge_into_def fun_eq_iff map_add_def split: option.splits)
  with l have u: "Labels (logged r) = ?u" by simp
  then have "Labels (logged r) k =
      (case (store_of h (tempLabels c) ++ fst (extractLabels fs)) k of
         Some v \<Rightarrow> Some v | None \<Rightarrow> store_of h (permLabels c) k)" for k
    by (simp add: map_add_def split: option.splits)
  with r u show ?thesis by blast
qed

theorem Write_dispatches_label_union_witness:
  "write_ready example_core \<and>
   (\<exists>r. Write example_env example_heap example_core example_entry example_fields = Inr r \<and>
        Labels (logged r) = [''env'' \<mapsto> ''prod'', ''request_id'' \<mapsto> ''42''])"
proof -
  have a: "write_ready example_core" by (rule write_ready_example)
  from Write_dispatches_label_union [OF a, of example_env example_heap example_entry example_fields]
  obtain r where "Write example_env example_heap example_core example_entry example_fields = Inr r"
    and "Labels (logged r) =
           store_of example_heap (permLabels example_core) ++
           (store_of example_heap (tempLabels example_core) ++ fst (extractLabels example_fields))"
    by blast
  then have "\<exists>r. Write example_env example_heap example_core example_entry example_fields = Inr r \<and>
        Labels (logged r) = [''env'' \<mapsto> ''prod'', ''request_id'' \<mapsto> ''42'']"
    by (simp add: example_core_def example_heap_def extractLabels_example_fields)
  with a show ?thesis by blast
qed

text \<open>
  C6: a write that runs to its end hands the decorated field set to the wrapped sink and
  returns the sink's error as it is; whatever the remote client does with the entry, the
  field set handed to the sink and the returned error are the same.
\<close>

theorem Write_returns_sink_error:
  assumes "write_ready c"
  shows "\<exists>r. Write E h c ent fs = Inr r \<and>
           err r = Core_Write (Core c) ent (written r) \<and>
           (\<forall>logger'. \<exists>r'. Write E h (c\<lparr>lg := Some logger'\<rparr>) ent fs = Inr r' \<and>
              err r' = err r \<and> written r' = written r)"
proof -
  let ?h1 = "merge_into (tempLabels c) (fst (extractLabels fs)) h"
  let ?fs3 = "decorate E (config c) ent
                (snd (extractLabels fs) @ [labelsField E (allLabels ?h1 c)])"
  from Write_runs [OF assms, of E h ent fs]
  obtain r where r: "Write E h c ent fs = Inr r" and w: "written r = ?fs3"
    and e: "err r = Core_Write (Core c) ent ?fs3"
    by (auto simp: Let_def)
  have "\<exists>r'. Write E h (c\<lparr>lg := Some logger'\<rparr>) ent fs = Inr r' \<and>
          err r' = err r \<and> written r' = written r" for logger'
  proof -
    have "write_ready (c\<lparr>lg := Some logger'\<rparr>)"
      using assms by (simp add: write_ready_def)
    from Write_runs [OF this, of E h ent fs]
    obtain r' where "Write E h (c\<lparr>lg := Some logger'\<rparr>) ent fs = Inr r'"
      and "written r' = ?fs3" and "err r' = Core_Write (Core c) ent ?fs3"
      by (auto simp: Let_def allLabels_def)
    with w e show ?thesis by auto
  qed
  with r w e show ?thesis by auto
qed

theorem Write_returns_sink_error_witness:
  "write_ready example_core \<and>
   (\<exists>r. Write example_env example_heap example_core example_entry example_fields = Inr r \<and>
        err r = Some ''disk full'' \<and> remote_outcome r = False)"
proof -
  have a: "write_ready example_core" by (rule write_ready_example)
  from Write_returns_sink_error [OF a, of example_env example_heap example_entry example_fields]
  obtain r where r: "Write example_env example_heap example_core example_entry example_fields = Inr r"
    and e: "err r = Core_Write (Core example_core) example_entry (written r)"
    by blast
  from e have "err r = Some ''disk full''"
    by (simp add: Core_Write_def example_core_def Core_With_def example_sink_def)
  moreover from r Write_runs [OF a, of example_env example_heap example_entry example_fields]
  have "remote_outcome r = False"
    by (auto simp: Let_def example_core_def example_logger_def)
  ultimately show ?thesis using a r by blast
qed

text \<open>
  C10: the keys of the payload are the keys of the fields accumulated by the scope and
  \<^verbatim>\<open>message\<close>; the entry under \<^verbatim>\<open>message\<close> is the record's message, also when an
  accumulated field has that key; the fields passed to the write do not change the payload.
\<close>

theorem Write_payload_keys:
  assumes "write_ready c"
  shows "\<exists>r. Write E h c ent fs = Inr r \<and>
           dom (Payload (logged r)) = Key ` set (core_fields c) \<union> {''message''} \<and>
           Payload (logged r) ''message'' = Some (StringVal (Message ent)) \<and>
           (\<forall>fs'. \<exists>r'. Write E h c ent fs' = Inr r' \<and>
              Payload (logged r') = Payload (logged r))"
proof -
  from Write_runs [OF assms, of E h ent fs]
  obtain p0 r where p0: "payload_loop E (core_fields c) Map.empty = Inr p0"
    and d: "dom p0 = Key ` set (core_fields c)"
    and r: "Write E h c ent fs = Inr r"
    and p: "Payload (logged r) = p0(''message'' \<mapsto> StringVal (Message ent))"
    by (auto simp: Let_def glog_def)
  have "\<exists>r'. Write E h c ent fs' = Inr r' \<and> Payload (logged r') = Payload (logged r)" for fs'
  proof -
    from Write_runs [OF assms, of E h ent fs'] p0
    obtain r' where "Write E h c ent fs' = Inr r'"
      and "Payload (logged r') = p0(''message'' \<mapsto> StringVal (Message ent))"
      by (auto simp: Let_def glog_def)
    with p show ?thesis by auto
  qed
  moreover from p d have "dom (Payload (logged r)) = Key ` set (core_fields c) \<union> {''message''}"
    by auto
  moreover from p have "Payload (logged r) ''message'' = Some (StringVal (Message ent))"
    by simp
  ultimately show ?thesis using r by blast
qed

theorem Write_payload_keys_witness:
  "write_ready example_core \<and>
   (\<exists>r. Write example_env example_heap example_core example_entry example_fields = Inr r \<and>
        dom (Payload (logged r)) = {''message'', ''user''} \<and>
        Payload (logged r) ''message'' = Some (StringVal ''boom''))"
proof -
  have a: "write_ready example_core" by (rule write_ready_example)
  from Write_payload_keys [OF a, of example_env example_heap example_entry example_fields]
  obtain r where "Write example_env example_heap example_core example_entry example_fields = Inr r"
    and "dom (Payload (logged r)) = Key ` set (core_fields example_core) \<union> {''message''}"
    and "Payload (logged r) ''message'' = Some (StringVal (Message example_entry))"
    by blast
  then have "\<exists>r. Write example_env example_heap example_core example_entry example_fields = Inr r \<and>
        dom (Payload (logged r)) = {''message'', ''user''} \<and>
        Payload (logged r) ''message'' = Some (StringVal ''boom'')"
    by (simp add: example_core_def example_entry_def zap_String_def)
  with a show ?thesis by blast
qed

text \<open>
  The example scope is the scope of the spec's scenario: a wrapped core with a logger and
  error reporting, then \<^verbatim>\<open>With\<close> on \<^verbatim>\<open>[labels.env="prod", user="x"]\<close>.
\<close>

lemma example_scope_created:
  "(case WrapCore [WithLogger example_logger, opt_ReportAllErrors True] empty_heap example_sink of
      (c0, h1) \<Rightarrow> With h1 c0 example_scope_fields) = (example_core, example_heap)"
proof -
  have e: "extractLabels example_scope_fields = ([''env'' \<mapsto> ''prod''], [zap_String ''user'' ''x''])"
    by (simp add: extractLabels_def example_scope_fields_def isLabelField_def zap_String_def)
  show ?thesis
    by (auto simp: WrapCore_def With_def newLabels_def empty_heap_def WithLogger_def
          opt_ReportAllErrors_def e merge_into_def example_core_def example_heap_def
          fun_eq_iff)
qed

section \<open>Properties of the enrichment rules\<close>

lemma hasKey_iff: "hasKey k fs = (k \<in> Key ` set fs)"
  by (induction fs) auto

lemma Key_zap_Object: "Key (zap_Object k v) = k"
  by (simp add: zap_Object_def)

text \<open>
  Each rule adds at most one field, and only under a key that no field has yet.
\<close>

lemma extends_fresh_iff:
  "extends_fresh fs gs =
     (\<exists>s. gs = fs @ s \<and> distinct (map Key s) \<and> Key ` set fs \<inter> Key ` set s = {})"
proof
  assume a: "extends_fresh fs gs"
  then have "gs = fs @ drop (length fs) gs"
    by (metis append_take_drop_id extends_fresh_def)
  with a show "\<exists>s. gs = fs @ s \<and> distinct (map Key s) \<and> Key ` set fs \<inter> Key ` set s = {}"
    by (auto simp: extends_fresh_def list_all_iff intro!: exI [of _ "drop (length fs) gs"])
next
  assume "\<exists>s. gs = fs @ s \<and> distinct (map Key s) \<and> Key ` set fs \<inter> Key ` set s = {}"
  then show "extends_fresh fs gs"
    by (auto simp: extends_fresh_def list_all_iff)
qed

lemma extends_fresh_refl: "extends_fresh fs fs"
  by (simp add: extends_fresh_iff)

lemma extends_fresh_trans:
  assumes "extends_fresh as bs" and "extends_fresh bs cs"
  shows "extends_fresh as cs"
proof -
  from assms(1) obtain s where s: "bs = as @ s" "distinct (map Key s)"
    "Key ` set as \<inter> Key ` set s = {}"
    by (auto simp: extends_fresh_iff)
  from assms(2) obtain t where t: "cs = bs @ t" "distinct (map Key t)"
    "Key ` set bs \<inter> Key ` set t = {}"
    by (auto simp: extends_fresh_iff)
  from s t have "cs = as @ (s @ t)" "distinct (map Key (s @ t))"
    "Key ` set as \<inter> Key ` set (s @ t) = {}"
    by auto
  then show ?thesis unfolding extends_fresh_iff by blast
qed

lemma extends_fresh_guarded:
  "Key f = k \<Longrightarrow> extends_fresh fs (if hasKey k fs then fs else fs @ [f])"
  by (auto simp: extends_fresh_iff hasKey_iff)

lemma Key_SourceLocation: "Key (SourceLocation E pc file line ok) = sourceKey E"
  by (simp add: SourceLocation_def Key_zap_Object)

lemma Key_ServiceContext: "Key (ServiceContext E name) = serviceContextKey E"
  by (simp add: ServiceContext_def Key_zap_Object)

lemma Key_ErrorReport: "Key (ErrorReport E pc file line ok) = contextKey E"
  by (simp add: ErrorReport_def Key_zap_Object)

lemma withSourceLocation_fresh: "extends_fresh fs (withSourceLocation E ent fs)"
  using extends_fresh_guarded [OF Key_SourceLocation, of fs E]
  by (cases "Defined (Caller ent)")
     (auto simp: withSourceLocation_def extends_fresh_refl)

lemma withServiceContext_fresh: "extends_fresh fs (withServiceContext E name fs)"
  using extends_fresh_guarded [OF Key_ServiceContext, of fs E]
  by (simp add: withServiceContext_def)

lemma withErrorReport_fresh: "extends_fresh fs (withErrorReport E ent fs)"
  using extends_fresh_guarded [OF Key_ErrorReport, of fs E]
  by (cases "Defined (Caller ent)")
     (auto simp: withErrorReport_def extends_fresh_refl)

lemma decorate_service_eq:
  "decorate_service E cfg ent fs =
     (if ServiceName cfg \<noteq> []
      then withServiceContext E (ServiceName cfg) (withSourceLocation E ent fs)
      else withSourceLocation E ent fs)"
  by (simp add: decorate_service_def decorate_source_def Let_def)

lemma decorate_eq:
  "decorate E cfg ent fs =
     (if ReportAllErrors cfg \<and> Enabled ErrorLevel (Level ent)
      then (if ServiceName cfg = []
            then withServiceContext E ''unknown''
                   (withErrorReport E ent (decorate_service E cfg ent fs))
            else withErrorReport E ent (decorate_service E cfg ent fs))
      else decorate_service E cfg ent fs)"
  by (simp add: decorate_def Let_def)

lemma decorate_service_fresh: "extends_fresh fs (decorate_service E cfg ent fs)"
proof -
  have "extends_fresh fs (withServiceContext E (ServiceName cfg) (withSourceLocation E ent fs))"
    by (rule extends_fresh_trans [OF withSourceLocation_fresh withServiceContext_fresh])
  then show ?thesis
    by (simp add: decorate_service_eq withSourceLocation_fresh)
qed

lemma decorate_fresh: "extends_fresh fs (decorate E cfg ent fs)"
proof -
  let ?fs2 = "decorate_service E cfg ent fs"
  have a: "extends_fresh fs (withErrorReport E ent ?fs2)"
    by (rule extends_fresh_trans [OF decorate_service_fresh withErrorReport_fresh])
  have "extends_fresh fs (withServiceContext E ''unknown'' (withErrorReport E ent ?fs2))"
    by (rule extends_fresh_trans [OF a withServiceContext_fresh])
  with a show ?thesis
    by (simp add: decorate_eq decorate_service_fresh)
qed

lemma decorate_extends: "decorate E cfg ent fs = fs @ appended E cfg ent fs"
  using decorate_fresh [of fs E cfg ent]
  by (auto simp: extends_fresh_iff appended_def)

lemma appended_fresh:
  "distinct (map Key (appended E cfg ent fs)) \<and>
   Key ` set fs \<inter> Key ` set (appended E cfg ent fs) = {}"
  using decorate_fresh [of fs E cfg ent]
  by (auto simp: extends_fresh_iff appended_def)

lemma withSourceLocation_fixed:
  "hasKey (sourceKey E) fs \<or> \<not> Defined (Caller ent) \<Longrightarrow> withSourceLocation E ent fs = fs"
  by (auto simp: withSourceLocation_def)

lemma withServiceContext_fixed:
  "hasKey (serviceContextKey E) fs \<Longrightarrow> withServiceContext E name fs = fs"
  by (simp add: withServiceContext_def)

lemma withErrorReport_fixed:
  "hasKey (contextKey E) fs \<or> \<not> Defined (Caller ent) \<Longrightarrow> withErrorReport E ent fs = fs"
  by (auto simp: withErrorReport_def)

lemma hasKey_mono: "extends_fresh fs gs \<Longrightarrow> hasKey k fs \<Longrightarrow> hasKey k gs"
  by (auto simp: extends_fresh_iff hasKey_iff)

lemma withSourceLocation_saturates:
  "hasKey (sourceKey E) (withSourceLocation E ent fs) \<or> \<not> Defined (Caller ent)"
  by (simp add: withSourceLocation_def hasKey_iff Key_SourceLocation)

lemma withServiceContext_saturates:
  "hasKey (serviceContextKey E) (withServiceContext E name fs)"
  by (simp add: withServiceContext_def hasKey_iff Key_ServiceContext)

lemma withErrorReport_saturates:
  "hasKey (contextKey E) (withErrorReport E ent fs) \<or> \<not> Defined (Caller ent)"
  by (simp add: withErrorReport_def hasKey_iff Key_ErrorReport)

lemma decorate_saturated:
  "(hasKey (sourceKey E) (decorate E cfg ent fs) \<or> \<not> Defined (Caller ent)) \<and>
   (ServiceName cfg \<noteq> [] \<longrightarrow> hasKey (serviceContextKey E) (decorate E cfg ent fs)) \<and>
   (ReportAllErrors cfg \<and> Enabled ErrorLevel (Level ent) \<longrightarrow>
      (hasKey (contextKey E) (decorate E cfg ent fs) \<or> \<not> Defined (Caller ent)) \<and>
      (ServiceName cfg = [] \<longrightarrow> hasKey (serviceContextKey E) (decorate E cfg ent fs)))"
proof -
  let ?fs1 = "withSourceLocation E ent fs"
  let ?fs2 = "decorate_service E cfg ent fs"
  let ?fs3 = "withErrorReport E ent ?fs2"
  let ?d = "decorate E cfg ent fs"
  have e12: "extends_fresh ?fs1 ?fs2"
    by (simp add: decorate_service_eq withServiceContext_fresh extends_fresh_refl)
  have e2d: "extends_fresh ?fs2 ?d"
    by (auto simp: decorate_eq extends_fresh_refl withErrorReport_fresh
          intro: extends_fresh_trans [OF withErrorReport_fresh withServiceContext_fresh])
  have e3d: "ReportAllErrors cfg \<and> Enabled ErrorLevel (Level ent) \<Longrightarrow> extends_fresh ?fs3 ?d"
    by (simp add: decorate_eq extends_fresh_refl withServiceContext_fresh)
  have s1: "hasKey (sourceKey E) ?d \<or> \<not> Defined (Caller ent)"
    using withSourceLocation_saturates [of E ent fs]
      hasKey_mono [OF e2d, of "sourceKey E"] hasKey_mono [OF e12, of "sourceKey E"]
    by blast
  have s2: "ServiceName cfg \<noteq> [] \<Longrightarrow> hasKey (serviceContextKey E) ?d"
    using withServiceContext_saturates [of E "ServiceName cfg" ?fs1]
      hasKey_mono [OF e2d, of "serviceContextKey E"]
    by (simp add: decorate_service_eq)
  have s3: "hasKey (contextKey E) ?d \<or> \<not> Defined (Caller ent)"
    if "ReportAllErrors cfg \<and> Enabled ErrorLevel (Level ent)"
    using withErrorReport_saturates [of E ent ?fs2] hasKey_mono [OF e3d [OF that], of "contextKey E"]
    by blast
  have s4: "hasKey (serviceContextKey E) ?d"
    if "ReportAllErrors cfg \<and> Enabled ErrorLevel (Level ent)" "ServiceName cfg = []"
    using that withServiceContext_saturates [of E "''unknown''" ?fs3]
    by (simp add: decorate_eq)
  from s1 s2 s3 s4 show ?thesis by blast
qed

lemma saturated_fixed:
  assumes "hasKey (sourceKey E) fs \<or> \<not> Defined (Caller ent)"
    and "ServiceName cfg \<noteq> [] \<longrightarrow> hasKey (serviceContextKey E) fs"
    and "ReportAllErrors cfg \<and> Enabled ErrorLevel (Level ent) \<longrightarrow>
      (hasKey (contextKey E) fs \<or> \<not> Defined (Caller ent)) \<and>
      (ServiceName cfg = [] \<longrightarrow> hasKey (serviceContextKey E) fs)"
  shows "decorate E cfg ent fs = fs"
proof -
  have 1: "withSourceLocation E ent fs = fs"
    using assms(1) by (rule withSourceLocation_fixed)
  have 2: "decorate_service E cfg ent fs = fs"
    using assms(2) by (simp add: decorate_service_eq 1 withServiceContext_fixed)
  show ?thesis
    using assms(3)
    by (auto simp: decorate_eq 2 withErrorReport_fixed withServiceContext_fixed)
qed

text \<open>
  C5: the enrichment block is idempotent: run on its own result it adds nothing. It keeps
  the field set it is given as it is and only adds fields behind it; no added field has the
  key of a field that was already there (so a field supplied under a reserved key is kept
  and no derived field shadows it), and no two added fields have the same key.
\<close>

theorem decorate_idempotent:
  "decorate E cfg ent (decorate E cfg ent fs) = decorate E cfg ent fs \<and>
   decorate E cfg ent fs = fs @ appended E cfg ent fs \<and>
   (\<forall>k. hasKey k fs \<longrightarrow> \<not> hasKey k (appended E cfg ent fs)) \<and>
   distinct (map Key (appended E cfg ent fs))"
proof -
  have "decorate E cfg ent (decorate E cfg ent fs) = decorate E cfg ent fs"
    using decorate_saturated [of E cfg ent fs] by (intro saturated_fixed) blast+
  moreover have "\<not> hasKey k (appended E cfg ent fs)" if "hasKey k fs" for k
    using that appended_fresh [of E cfg ent fs] by (auto simp: hasKey_iff)
  ultimately show ?thesis
    using decorate_extends [of E cfg ent fs] appended_fresh [of E cfg ent fs]
    by blast
qed

theorem decorate_idempotent_witness:
  "hasKey (sourceKey example_env) example_caller_source \<and>
   \<not> hasKey (sourceKey example_env)
       (appended example_env example_config example_entry example_caller_source) \<and>
   decorate example_env example_config example_entry
     (decorate example_env example_config example_entry example_caller_source) =
   decorate example_env example_config example_entry example_caller_source"
proof -
  have h: "hasKey (sourceKey example_env) example_caller_source"
    by (simp add: example_env_def example_caller_source_def Key_zap_Object)
  from decorate_idempotent [of example_env example_config example_entry example_caller_source] h
  show ?thesis by blast
qed

lemma hasKey_append: "hasKey k (fs @ gs) = (hasKey k fs \<or> hasKey k gs)"
  by (auto simp: hasKey_iff)

text \<open>
  The fields that the block adds, rule by rule.
\<close>

lemma appended_eq:
  "appended E cfg ent fs =
     (let s1 = (if hasKey (sourceKey E) fs \<or> \<not> Defined (Caller ent) then []
                else [SourceLocation E (PC (Caller ent)) (File (Caller ent)) (Line (Caller ent)) True]);
          s2 = (if ServiceName cfg \<noteq> [] \<and> \<not> hasKey (serviceContextKey E) (fs @ s1)
                then [ServiceContext E (ServiceName cfg)] else []);
          s3 = (if ReportAllErrors cfg \<and> Enabled ErrorLevel (Level ent) \<and>
                   \<not> hasKey (contextKey E) (fs @ s1 @ s2) \<and> Defined (Caller ent)
                then [ErrorReport E (PC (Caller ent)) (File (Caller ent)) (Line (Caller ent)) True]
                else []);
          s4 = (if ReportAllErrors cfg \<and> Enabled ErrorLevel (Level ent) \<and> ServiceName cfg = [] \<and>
                   \<not> hasKey (serviceContextKey E) (fs @ s1 @ s2 @ s3)
                then [ServiceContext E ''unknown''] else [])
      in s1 @ s2 @ s3 @ s4)"
  by (simp add: appended_def decorate_eq decorate_service_eq withSourceLocation_def
        withServiceContext_def withErrorReport_def Let_def)

text \<open>
  C4, amended; the reserved keys are different strings. The error-report field is added
  exactly when \<^verbatim>\<open>ReportAllErrors\<close> is set, the level of the record is at least the error
  level, the record has caller information and no field of the set has the error-report
  key. When it is added and no service name is configured, the block adds one
  service-context field, the one for \<^verbatim>\<open>unknown\<close>, unless a field of the set has the
  service-context key already; then it adds none. The field set is the one \<^verbatim>\<open>Write\<close>
  decorates, the pass-through fields and the labels field (lemma \<open>Write_runs\<close>).
\<close>

theorem error_report_rule:
  assumes "distinct [sourceKey E, serviceContextKey E, contextKey E]"
  shows "(ErrorReport E (PC (Caller ent)) (File (Caller ent)) (Line (Caller ent)) True
            \<in> set (appended E cfg ent fs)) =
         (ReportAllErrors cfg \<and> Enabled ErrorLevel (Level ent) \<and> Defined (Caller ent) \<and>
          \<not> hasKey (contextKey E) fs) \<and>
         (ErrorReport E (PC (Caller ent)) (File (Caller ent)) (Line (Caller ent)) True
            \<in> set (appended E cfg ent fs) \<and> ServiceName cfg = [] \<longrightarrow>
          count_key (serviceContextKey E) (appended E cfg ent fs) =
            (if hasKey (serviceContextKey E) fs then 0 else 1) \<and>
          (\<not> hasKey (serviceContextKey E) fs \<longrightarrow>
             ServiceContext E ''unknown'' \<in> set (appended E cfg ent fs)))"
proof -
  from assms have k: "sourceKey E \<noteq> serviceContextKey E" "sourceKey E \<noteq> contextKey E"
    "serviceContextKey E \<noteq> contextKey E" "serviceContextKey E \<noteq> sourceKey E"
    "contextKey E \<noteq> sourceKey E" "contextKey E \<noteq> serviceContextKey E"
    by auto
  have o: "ErrorReport E a b c d \<noteq> SourceLocation E a' b' c' d'"
    "ErrorReport E a b c d \<noteq> ServiceContext E n" for a b c d a' b' c' d' n
    by (simp_all add: ErrorReport_def SourceLocation_def ServiceContext_def zap_Object_def)
  show ?thesis
    by (auto simp: appended_eq Let_def hasKey_append Key_SourceLocation Key_ServiceContext
          Key_ErrorReport k o count_key_def)
qed

theorem error_report_rule_witness:
  "distinct [sourceKey example_env, serviceContextKey example_env, contextKey example_env] \<and>
   ErrorReport example_env 4096 ''main.go'' 10 True
     \<in> set (appended example_env example_config example_entry [zap_String ''user'' ''x'']) \<and>
   count_key ''serviceContext''
     (appended example_env example_config example_entry [zap_String ''user'' ''x'']) = 1 \<and>
   ServiceContext example_env ''unknown''
     \<in> set (appended example_env example_config example_entry [zap_String ''user'' ''x''])"
proof -
  let ?fs = "[zap_String ''user'' ''x'']"
  have d: "distinct [sourceKey example_env, serviceContextKey example_env, contextKey example_env]"
    by (simp add: example_env_def)
  have c: "ReportAllErrors example_config \<and> Enabled ErrorLevel (Level example_entry) \<and>
           Defined (Caller example_entry) \<and> \<not> hasKey (contextKey example_env) ?fs"
    by (simp add: example_config_def example_entry_def Enabled_def example_env_def
          zap_String_def)
  have n: "ServiceName example_config = []" by (simp add: example_config_def)
  have s: "\<not> hasKey (serviceContextKey example_env) ?fs"
    by (simp add: example_env_def zap_String_def)
  note t = error_report_rule [OF d, of example_entry example_config ?fs]
  from t c have r: "ErrorReport example_env (PC (Caller example_entry))
      (File (Caller example_entry)) (Line (Caller example_entry)) True
        \<in> set (appended example_env example_config example_entry ?fs)"
    by blast
  with t n s have "count_key (serviceContextKey example_env)
      (appended example_env example_config example_entry ?fs) = 1 \<and>
    ServiceContext example_env ''unknown''
      \<in> set (appended example_env example_config example_entry ?fs)"
    by simp
  moreover have "serviceContextKey example_env = ''serviceContext''"
    by (simp add: example_env_def)
  moreover from r have "ErrorReport example_env 4096 ''main.go'' 10 True
     \<in> set (appended example_env example_config example_entry ?fs)"
    by (simp add: example_entry_def)
  ultimately show ?thesis using d by simp
qed

text \<open>
  C4 as stated fails when the caller has supplied a service-context field: the error-report
  rule fires with an empty service name, and no \<^verbatim>\<open>unknown\<close> service-context field is
  added.
\<close>

theorem error_report_unknown_service_counterexample:
  "ErrorReport example_env 4096 ''main.go'' 10 True
     \<in> set (appended example_env example_config example_entry example_caller_service) \<and>
   ServiceName example_config = [] \<and>
   ServiceContext example_env ''unknown''
     \<notin> set (decorate example_env example_config example_entry example_caller_service) \<and>
   count_key (serviceContextKey example_env)
     (appended example_env example_config example_entry example_caller_service) = 0"
  by (simp add: decorate_extends appended_eq Let_def example_config_def example_entry_def
        Enabled_def example_env_def example_caller_service_def Key_zap_Object
        ErrorReport_def SourceLocation_def ServiceContext_def zap_Object_def count_key_def)



section \<open>Scopes keep their two stores apart\<close>

text \<open>
  \<^verbatim>\<open>WrapCore\<close> and \<^verbatim>\<open>With\<close> give a core a temporary store of its own, different from
  the permanent store that it shares with its ancestors; an option does not touch the
  store pointers.
\<close>

lemma newLabels_fresh:
  "newLabels h = (r, h') \<Longrightarrow>
   r = next_ref h \<and> next_ref h' = Suc r \<and> store_of h' r = Map.empty \<and>
   (\<forall>x. x \<noteq> r \<longrightarrow> store_of h' x = store_of h x)"
  by (auto simp: newLabels_def)

lemma WrapCore_stores:
  assumes "\<forall>option \<in> set options. \<forall>c. permLabels (option c) = permLabels c \<and>
             tempLabels (option c) = tempLabels c"
    and "WrapCore options h s = (c, h')"
  shows "permLabels c \<noteq> tempLabels c \<and> permLabels c < next_ref h' \<and>
         tempLabels c < next_ref h' \<and> store_of h' (permLabels c) = Map.empty \<and>
         store_of h' (tempLabels c) = Map.empty"
proof -
  have f: "permLabels (fold (\<lambda>option c. option c) options c0) = permLabels c0 \<and>
           tempLabels (fold (\<lambda>option c. option c) options c0) = tempLabels c0" for c0
    using assms(1) by (induction options arbitrary: c0) auto
  from assms(2) show ?thesis
    by (auto simp: WrapCore_def newLabels_def Let_def f)
qed

lemma With_stores:
  assumes "permLabels c < next_ref h" and "With h c fs = (c', h')"
  shows "permLabels c' = permLabels c \<and> tempLabels c' \<noteq> permLabels c' \<and>
         permLabels c' < next_ref h' \<and> tempLabels c' < next_ref h' \<and>
         store_of h' (tempLabels c') = Map.empty \<and>
         store_of h' (permLabels c') = store_of h (permLabels c) ++ fst (extractLabels fs) \<and>
         core_fields c' = core_fields c @ snd (extractLabels fs) \<and>
         lg c' = lg c \<and> config c' = config c"
  using assms
  by (auto simp: With_def newLabels_def merge_into_def Let_def split_beta)

end
